theory Spec2Isabelle
  imports Main
begin

section \<open>EasyWriter: the data model\<close>

text \<open>
  The embedding follows \<^verbatim>\<open>src/TypeWriter.ts\<close>. Strings are \<^typ>\<open>string\<close> (one
  \<^typ>\<open>char\<close> for each code unit, so \<^const>\<open>length\<close> is \<^verbatim>\<open>.length\<close>). Delays, the
  cursor and the loop-from index are integers (\<^typ>\<open>int\<close>); the two counters and the
  count of \<^verbatim>\<open>erase\<close>, on which the code computes with whatever the caller passes, are
  values of the type \<open>number\<close> below. The element is a store: \<^verbatim>\<open>innerText\<close> reads what
  was last assigned to it. Every \<^verbatim>\<open>throw\<close> of the source, and every exception the
  built-ins it calls can raise on these inputs, is a constructor of \<open>error\<close>.
\<close>

datatype error =
    TargetNotFound    \<comment> \<open>\<^verbatim>\<open>Error("EasyWriter: Could not find element")\<close>\<close>
  | AlreadyStarted    \<comment> \<open>\<^verbatim>\<open>Error('EasyWriter: Cannot write after typing has already started')\<close>\<close>
  | NoPriorWrite      \<comment> \<open>\<^verbatim>\<open>Error('EasyWriter: Cannot eraseLast, last element does not exist')\<close>\<close>
  | RangeError        \<comment> \<open>\<^verbatim>\<open>String.prototype.repeat\<close> with a count it refuses\<close>
  | TypeError         \<comment> \<open>reading a property of \<^verbatim>\<open>undefined\<close>\<close>

text \<open>
  A method mutates the object in place, also when it leaves by an exception: the
  outcome of a call carries the state at exit in both cases.
\<close>

datatype 's outcome = Return 's | Throw error 's

fun state_of :: "'s outcome \<Rightarrow> 's" where
  "state_of (Return s) = s"
| "state_of (Throw e s) = s"

fun thrown :: "'s outcome \<Rightarrow> error option" where
  "thrown (Return s) = None"
| "thrown (Throw e s) = Some e"

section \<open>Numbers and strings of the engine\<close>

text \<open>
  Of the values of the type \<^verbatim>\<open>number\<close> (IEEE 754 doubles) the model has the integers,
  both infinities and \<^verbatim>\<open>NaN\<close>; \<open>Fin n\<close> is meant for an \<open>n\<close> that a double can hold, and
  the two zeros are one. Addition and subtraction are exact in the integers and then
  rounded to the nearest double (to the even one of two nearest), so below \<open>2 ^ 53\<close> in
  magnitude they are exact, above they are not, and from \<open>2 ^ 1024\<close> on they give an
  infinity.
\<close>

datatype number = Fin int | PosInf | NegInf | NaN

fun bit_length :: "nat \<Rightarrow> nat" where
  "bit_length n = (if n = 0 then 0 else Suc (bit_length (n div 2)))"

declare bit_length.simps [simp del]

definition nearest_double :: "nat \<Rightarrow> nat" where
  "nearest_double a =
     (if a < 2 ^ 53 then a
      else
        (let q = 2 ^ (bit_length a - 53);
             m = a div q;
             r = a mod q
         in if 2 * r < q \<or> (2 * r = q \<and> even m) then m * q else (m + 1) * q))"

definition to_number :: "int \<Rightarrow> number" where
  "to_number n =
     (let a = nearest_double (nat \<bar>n\<bar>)
      in if 1024 < bit_length a then (if n < 0 then NegInf else PosInf)
         else Fin (if n < 0 then - int a else int a))"

fun num_add :: "number \<Rightarrow> number \<Rightarrow> number" where
  "num_add (Fin a) (Fin b) = to_number (a + b)"
| "num_add NaN y = NaN"
| "num_add x NaN = NaN"
| "num_add PosInf NegInf = NaN"
| "num_add NegInf PosInf = NaN"
| "num_add PosInf y = PosInf"
| "num_add x PosInf = PosInf"
| "num_add NegInf y = NegInf"
| "num_add x NegInf = NegInf"

fun num_neg :: "number \<Rightarrow> number" where
  "num_neg (Fin a) = Fin (- a)"
| "num_neg PosInf = NegInf"
| "num_neg NegInf = PosInf"
| "num_neg NaN = NaN"

definition num_sub :: "number \<Rightarrow> number \<Rightarrow> number" where
  "num_sub x y = num_add x (num_neg y)"

text \<open>The integers on which the arithmetic is exact (\<^verbatim>\<open>Number.isSafeInteger\<close>).\<close>

definition safe :: "int \<Rightarrow> bool" where
  "safe n = (\<bar>n\<bar> < 2 ^ 53)"

text \<open>
  The engine bounds the length of a string: \<open>maxStringLength\<close> is V8's bound on a 64-bit
  machine, \<open>2 ^ 29 - 24\<close>. \<^verbatim>\<open>'\r'.repeat(count)\<close> takes \<^verbatim>\<open>NaN\<close> for 0 and raises
  \<^verbatim>\<open>RangeError\<close> (here \<open>None\<close>) for a negative count, for \<^verbatim>\<open>+Infinity\<close> and for a count
  above that bound.
\<close>

definition maxStringLength :: nat where
  "maxStringLength = 536870888"

definition repeat_char :: "char \<Rightarrow> number \<Rightarrow> string option" where
  "repeat_char c count =
     (case count of
        NaN \<Rightarrow> Some []
      | PosInf \<Rightarrow> None
      | NegInf \<Rightarrow> None
      | Fin n \<Rightarrow>
          if n < 0 \<or> int maxStringLength < n then None else Some (replicate (nat n) c))"

section \<open>The element and the writer\<close>

text \<open>The part of an \<^verbatim>\<open>HTMLElement\<close> the class uses: its text and its class list
  (a \<^verbatim>\<open>DOMTokenList\<close>, an ordered set of tokens).\<close>

record element =
  innerText :: string
  classList :: "string list"

text \<open>\<^verbatim>\<open>interface EasyWriterConfig\<close>, after the constructor has resolved \<^verbatim>\<open>element\<close>
  (the resolved element is the field \<open>element\<close> of the writer below).\<close>

record EasyWriterConfig =
  typeDelay :: int
  loop :: bool
  loopFrom :: int
  hideCursorOnEnd :: bool

text \<open>An entry \<^verbatim>\<open>{ text, delay }\<close> of \<^verbatim>\<open>_writes\<close>.\<close>

record write_entry =
  wtext :: string
  wdelay :: int

record EasyWriter =
  element :: element
  config :: EasyWriterConfig
  writes :: "write_entry list"
  eraseNum :: number
  charsNum :: number
  typingStarted :: bool
  currentWritesIndex :: int

definition default_config :: EasyWriterConfig where
  "default_config =
     \<lparr>typeDelay = 150, loop = False, loopFrom = 0, hideCursorOnEnd = False\<rparr>"

text \<open>
  The field initialisers (\<open>fresh\<close>) and the constructor. \<open>cfg\<close> is the configuration
  merged over the defaults and \<open>el\<close> what the selector resolves to (\<open>None\<close> when
  \<^verbatim>\<open>config.element\<close> is not an \<^verbatim>\<open>HTMLElement\<close> after resolution).
\<close>

definition fresh :: "EasyWriterConfig \<Rightarrow> element \<Rightarrow> EasyWriter" where
  "fresh cfg e =
     \<lparr>element = e, config = cfg, writes = [], eraseNum = Fin 0, charsNum = Fin 0,
      typingStarted = False, currentWritesIndex = 0\<rparr>"

definition new_EasyWriter :: "EasyWriterConfig \<Rightarrow> element option \<Rightarrow> error + EasyWriter" where
  "new_EasyWriter cfg el =
     (case el of
        None \<Rightarrow> Inl TargetNotFound
      | Some e \<Rightarrow> Inr (fresh cfg e))"

section \<open>Queueing instructions\<close>

text \<open>The erase marker \<^verbatim>\<open>'\r'\<close>.\<close>

definition CR :: char where
  "CR = CHR 0x0D"

definition write_op :: "string \<Rightarrow> int \<Rightarrow> EasyWriter \<Rightarrow> EasyWriter outcome" where
  "write_op txt d w =
     (if typingStarted w then Throw AlreadyStarted w
      else
        Return (w\<lparr>charsNum := num_add (charsNum w) (Fin (int (length txt))),
                  writes := writes w @ [\<lparr>wtext = txt, wdelay = d\<rparr>]\<rparr>))"

text \<open>
  \<^verbatim>\<open>erase\<close> updates both counters first; the argument \<^verbatim>\<open>'\r'.repeat(count)\<close> is
  evaluated next and may raise \<^verbatim>\<open>RangeError\<close>; only then is \<^verbatim>\<open>write\<close> entered.
\<close>

definition erase :: "number \<Rightarrow> int \<Rightarrow> EasyWriter \<Rightarrow> EasyWriter outcome" where
  "erase count d w =
     (let w1 = w\<lparr>eraseNum := num_add (eraseNum w) count\<rparr>;
          w2 = w1\<lparr>charsNum := num_sub (charsNum w1) count\<rparr>
      in case repeat_char CR count of
           None \<Rightarrow> Throw RangeError w2
         | Some markers \<Rightarrow> write_op markers d w2)"

text \<open>\<^verbatim>\<open>this._writes.slice(-1)[0]\<close> is the last entry, or \<^verbatim>\<open>undefined\<close> on an empty queue.\<close>

definition last_entry :: "'a list \<Rightarrow> 'a option" where
  "last_entry xs = (if xs = [] then None else Some (last xs))"

definition eraseLast :: "int \<Rightarrow> EasyWriter \<Rightarrow> EasyWriter outcome" where
  "eraseLast d w =
     (case last_entry (writes w) of
        None \<Rightarrow> Throw NoPriorWrite w
      | Some l \<Rightarrow> erase (Fin (int (length (wtext l)))) d w)"

definition eraseAll :: "int \<Rightarrow> EasyWriter \<Rightarrow> EasyWriter outcome" where
  "eraseAll d w =
     (let textElementLength = Fin (int (length (innerText (element w))))
      in erase (num_sub (num_add textElementLength (charsNum w)) (eraseNum w)) d w)"

text \<open>A script of calls on the fluent interface; a call that throws ends the script.\<close>

datatype call =
    Write string int
  | Erase number int
  | EraseLast int
  | EraseAll int

fun do_call :: "call \<Rightarrow> EasyWriter \<Rightarrow> EasyWriter outcome" where
  "do_call (Write txt d) w = write_op txt d w"
| "do_call (Erase c d) w = erase c d w"
| "do_call (EraseLast d) w = eraseLast d w"
| "do_call (EraseAll d) w = eraseAll d w"

fun do_calls :: "call list \<Rightarrow> EasyWriter \<Rightarrow> EasyWriter outcome" where
  "do_calls [] w = Return w"
| "do_calls (c # cs) w =
     (case do_call c w of
        Return w' \<Rightarrow> do_calls cs w'
      | Throw e w' \<Rightarrow> Throw e w')"

text \<open>What a script passes to \<^verbatim>\<open>write\<close> and to \<^verbatim>\<open>erase\<close>, and the scripts of \<^verbatim>\<open>write\<close>
  calls and of \<^verbatim>\<open>erase\<close> calls with a count from 0 to the greatest length of a string.\<close>

fun written :: "call list \<Rightarrow> int" where
  "written [] = 0"
| "written (Write txt d # cs) = int (length txt) + written cs"
| "written (c # cs) = written cs"

fun erased :: "call list \<Rightarrow> int" where
  "erased [] = 0"
| "erased (Erase (Fin c) d # cs) = c + erased cs"
| "erased (c # cs) = erased cs"

fun plain_call :: "call \<Rightarrow> bool" where
  "plain_call (Write txt d) = True"
| "plain_call (Erase (Fin c) d) = (0 \<le> c \<and> c \<le> int maxStringLength)"
| "plain_call (Erase c d) = False"
| "plain_call (EraseLast d) = False"
| "plain_call (EraseAll d) = False"

section \<open>Timers\<close>

text \<open>
  Playback runs in timer callbacks, and a pending timer holds its callback's closure.
  The source makes two kinds of timer: the timeout of \<^verbatim>\<open>start\<close> and \<^verbatim>\<open>#type\<close>, whose
  callback will call \<^verbatim>\<open>#type\<close> on a text, and the interval of a \<^verbatim>\<open>#type\<close> call, with its
  period and the closure variables \<^verbatim>\<open>text\<close> and \<^verbatim>\<open>index\<close> (its timer id is
  \<^verbatim>\<open>intervalId\<close>). Time is a virtual clock in milliseconds; a negative delay counts
  as 0, and the minimum delays a browser adds are left out.
\<close>

datatype pending =
    Timeout string
  | Interval int string nat

record timer =
  tid :: nat
  due :: int
  pending :: pending

record world =
  writer :: EasyWriter
  clock :: int
  timers :: "timer list"
  nextId :: nat

definition setTimeout :: "string \<Rightarrow> int \<Rightarrow> world \<Rightarrow> world" where
  "setTimeout txt d w =
     w\<lparr>timers := timers w @ [\<lparr>tid = nextId w, due = clock w + max 0 d, pending = Timeout txt\<rparr>],
       nextId := Suc (nextId w)\<rparr>"

definition setInterval :: "string \<Rightarrow> nat \<Rightarrow> int \<Rightarrow> world \<Rightarrow> world" where
  "setInterval txt index p w =
     w\<lparr>timers := timers w @
         [\<lparr>tid = nextId w, due = clock w + max 0 p, pending = Interval (max 0 p) txt index\<rparr>],
       nextId := Suc (nextId w)\<rparr>"

definition clearInterval :: "nat \<Rightarrow> world \<Rightarrow> world" where
  "clearInterval i w = w\<lparr>timers := filter (\<lambda>t. tid t \<noteq> i) (timers w)\<rparr>"

text \<open>The timer that fires next: the least due time, and among equals the one that
  was set first.\<close>

fun earliest :: "timer list \<Rightarrow> timer option" where
  "earliest [] = None"
| "earliest (t # ts) =
     (case earliest ts of
        None \<Rightarrow> Some t
      | Some u \<Rightarrow> if due u < due t then Some u else Some t)"

text \<open>When its callback is about to run, a timeout is gone, and an interval is set
  again one period later, behind the timers that are pending.\<close>

definition rearm :: "timer \<Rightarrow> world \<Rightarrow> world" where
  "rearm t w =
     (case pending t of
        Timeout txt \<Rightarrow> clearInterval (tid t) w
      | Interval p txt index \<Rightarrow>
          w\<lparr>timers := filter (\<lambda>u. tid u \<noteq> tid t) (timers w) @ [t\<lparr>due := due t + p\<rparr>]\<rparr>)"

text \<open>Assignment to the closure variable \<^verbatim>\<open>index\<close> of the interval \<open>i\<close>.\<close>

definition set_index :: "nat \<Rightarrow> nat \<Rightarrow> world \<Rightarrow> world" where
  "set_index i n w =
     w\<lparr>timers := map (\<lambda>u. if tid u = i
                           then (case pending u of
                                   Interval p txt k \<Rightarrow> u\<lparr>pending := Interval p txt n\<rparr>
                                 | Timeout txt \<Rightarrow> u)
                           else u) (timers w)\<rparr>"

section \<open>Playback\<close>

text \<open>\<^verbatim>\<open>xs[i]\<close>: \<^verbatim>\<open>undefined\<close> outside the array.\<close>

definition at_index :: "'a list \<Rightarrow> int \<Rightarrow> 'a option" where
  "at_index xs i = (if 0 \<le> i \<and> i < int (length xs) then Some (xs ! nat i) else None)"

text \<open>\<^verbatim>\<open>classList.toggle(token, force)\<close> and \<^verbatim>\<open>classList.add(token)\<close>.\<close>

definition classList_add :: "string \<Rightarrow> string list \<Rightarrow> string list" where
  "classList_add tok cl = (if tok \<in> set cl then cl else cl @ [tok])"

definition classList_toggle :: "string \<Rightarrow> bool \<Rightarrow> string list \<Rightarrow> string list" where
  "classList_toggle tok force cl = (if force then classList_add tok cl else removeAll tok cl)"

definition map_element :: "(element \<Rightarrow> element) \<Rightarrow> world \<Rightarrow> world" where
  "map_element f w = w\<lparr>writer := (writer w)\<lparr>element := f (element (writer w))\<rparr>\<rparr>"

definition toggleCursor :: "bool \<Rightarrow> world \<Rightarrow> world" where
  "toggleCursor show w =
     map_element (\<lambda>e. e\<lparr>classList := classList_toggle ''typing'' (\<not> show) (classList e)\<rparr>) w"

definition hideCursor :: "world \<Rightarrow> world" where
  "hideCursor w =
     map_element (\<lambda>e. e\<lparr>classList := classList_add ''hide-cursor'' (classList e)\<rparr>) w"

text \<open>
  \<^verbatim>\<open>start\<close>. The delay \<^verbatim>\<open>firstWriteEl.delay || 0\<close> is read while the arguments of
  \<^verbatim>\<open>setTimeout\<close> are evaluated: when \<^verbatim>\<open>_writes[_currentWritesIndex]\<close> is
  \<^verbatim>\<open>undefined\<close> that read raises \<^verbatim>\<open>TypeError\<close> and no timer is set. On integers
  \<^verbatim>\<open>d || 0\<close> is \<open>d\<close>.
\<close>

definition start :: "world \<Rightarrow> world outcome" where
  "start w =
     (let w1 = w\<lparr>writer := (writer w)\<lparr>typingStarted := True\<rparr>\<rparr>
      in if length (writes (writer w1)) = 0 then Return w1
         else
           (case at_index (writes (writer w1)) (currentWritesIndex (writer w1)) of
              None \<Rightarrow> Throw TypeError w1
            | Some firstWriteEl \<Rightarrow>
                Return (setTimeout (wtext firstWriteEl) (wdelay firstWriteEl) w1)))"

text \<open>\<^verbatim>\<open>#type\<close>: the body up to \<^verbatim>\<open>setInterval\<close>; the interval's callback follows.\<close>

definition priv_type :: "string \<Rightarrow> world \<Rightarrow> world" where
  "priv_type txt w =
     (let w1 = toggleCursor False w;
          index = 0
      in setInterval txt index (typeDelay (config (writer w1))) w1)"

text \<open>What one character does to the visible text: \<^verbatim>\<open>innerText.slice(0, -1)\<close> for the
  erase marker, \<^verbatim>\<open>innerText += char\<close> otherwise. \<open>char\<close> is
  \<^verbatim>\<open>text.substring(index, index + 1)\<close>, a string of at most one character.\<close>

definition put_char :: "string \<Rightarrow> string \<Rightarrow> string" where
  "put_char char s = (if char = [CR] then butlast s else s @ char)"

definition interval_callback :: "nat \<Rightarrow> string \<Rightarrow> nat \<Rightarrow> world \<Rightarrow> world outcome" where
  "interval_callback intervalId txt index w =
     (let isFinished = (index = length txt)
      in if isFinished then
           (let w1 = toggleCursor True w;
                w2 = clearInterval intervalId w1;
                w3 = w2\<lparr>writer := (writer w2)\<lparr>currentWritesIndex := currentWritesIndex (writer w2) + 1\<rparr>\<rparr>
            in case at_index (writes (writer w3)) (currentWritesIndex (writer w3)) of
                 Some nextWrite \<Rightarrow>
                   Return (setTimeout (wtext nextWrite) (wdelay nextWrite) w3)
               | None \<Rightarrow>
                   if loop (config (writer w3)) then
                     start (w3\<lparr>writer := (writer w3)\<lparr>currentWritesIndex := loopFrom (config (writer w3))\<rparr>\<rparr>)
                   else if hideCursorOnEnd (config (writer w3)) then Return (hideCursor w3)
                   else Return w3)
         else
           (let char = take 1 (drop index txt);
                w1 = set_index intervalId (index + 1) w
            in Return (map_element (\<lambda>e. e\<lparr>innerText := put_char char (innerText e)\<rparr>) w1)))"

text \<open>
  One turn of the event loop: the clock moves to the next timer's due time and its
  callback runs. With no timer pending nothing happens any more (the writer is idle).
\<close>

definition fire :: "world \<Rightarrow> world outcome" where
  "fire w =
     (case earliest (timers w) of
        None \<Rightarrow> Return w
      | Some t \<Rightarrow>
          (let w1 = rearm t (w\<lparr>clock := due t\<rparr>)
           in case pending t of
                Timeout txt \<Rightarrow> Return (priv_type txt w1)
              | Interval p txt index \<Rightarrow> interval_callback (tid t) txt index w1))"

text \<open>\<open>run n\<close> fires \<open>n\<close> timers and stops at the first uncaught exception.\<close>

fun run :: "nat \<Rightarrow> world \<Rightarrow> world outcome" where
  "run 0 w = Return w"
| "run (Suc n) w =
     (case fire w of
        Return w' \<Rightarrow> run n w'
      | Throw e w' \<Rightarrow> Throw e w')"

definition idle :: "world \<Rightarrow> bool" where
  "idle w = (timers w = [])"

text \<open>The page at the moment the script begins: nothing scheduled, clock at 0.\<close>

definition page :: "EasyWriter \<Rightarrow> world" where
  "page ew = \<lparr>writer = ew, clock = 0, timers = [], nextId = 0\<rparr>"

section \<open>Vocabulary of the statements\<close>

abbreviation visible :: "world \<Rightarrow> string" where
  "visible w \<equiv> innerText (element (writer w))"

abbreviation classes :: "world \<Rightarrow> string list" where
  "classes w \<equiv> classList (element (writer w))"

text \<open>The visible text after the characters \<open>cs\<close> have been processed, one by one, on \<open>s\<close>.\<close>

definition typed :: "string \<Rightarrow> string \<Rightarrow> string" where
  "typed s cs = foldl (\<lambda>s c. put_char [c] s) s cs"

text \<open>The loop-from index is an index of the queue.\<close>

definition in_queue :: "world \<Rightarrow> bool" where
  "in_queue w = (0 \<le> loopFrom (config (writer w)) \<and>
                 loopFrom (config (writer w)) < int (length (writes (writer w))))"


text \<open>The started page of a script run on a fresh writer.\<close>

definition started :: "EasyWriterConfig \<Rightarrow> element \<Rightarrow> call list \<Rightarrow> world" where
  "started cfg e cs = state_of (start (page (state_of (do_calls cs (fresh cfg e)))))"




section \<open>Concrete pages\<close>

definition plain :: "string \<Rightarrow> element" where
  "plain t = \<lparr>innerText = t, classList = []\<rparr>"

definition demo_config :: EasyWriterConfig where
  "demo_config = default_config\<lparr>typeDelay := 10\<rparr>"

text \<open>\<^verbatim>\<open>write("Hi")\<close> on an empty element, and \<^verbatim>\<open>erase(2)\<close> and \<^verbatim>\<open>erase(3)\<close> on an
  element that shows \<^verbatim>\<open>Hi\<close>, each with \<^verbatim>\<open>typeDelay\<close> 10 and started.\<close>

definition hi_world :: world where
  "hi_world = started demo_config (plain []) [Write ''Hi'' 0]"

definition erase_world :: world where
  "erase_world = started demo_config (plain ''Hi'') [Erase (Fin 2) 0]"

definition over_erase_world :: world where
  "over_erase_world = started demo_config (plain ''Hi'') [Erase (Fin 3) 0]"

text \<open>\<^verbatim>\<open>write("Hi")\<close> on an element that carries the class \<^verbatim>\<open>typing\<close> already.\<close>

definition typing_world :: world where
  "typing_world = started demo_config \<lparr>innerText = [], classList = [''typing'']\<rparr> [Write ''Hi'' 0]"






text \<open>Looping writers whose \<^verbatim>\<open>loopFrom\<close> is not an index of the queue, and one whose
  \<^verbatim>\<open>loopFrom\<close> is.\<close>

definition past_end_world :: world where
  "past_end_world =
     started (default_config\<lparr>loop := True, loopFrom := 1\<rparr>) (plain []) [Write ''a'' 0]"

definition negative_loop_world :: world where
  "negative_loop_world =
     started (default_config\<lparr>loop := True, loopFrom := - 1\<rparr>) (plain [])
       [Write ''a'' 0, Write ''b'' 0]"

definition loop_world :: world where
  "loop_world =
     started (default_config\<lparr>loop := True, loopFrom := 0\<rparr>) (plain [])
       [Write ''a'' 0, Erase (Fin 1) 0]"

section \<open>Numbers: where the arithmetic is exact\<close>


lemma bit_length_less: "n < 2 ^ k \<Longrightarrow> bit_length n \<le> k"
proof (induction k arbitrary: n)
  case 0
  then show ?case by (simp add: bit_length.simps)
next
  case (Suc k)
  then have "n div 2 < 2 ^ k" by auto
  from Suc.IH[OF this] show ?case
    by (simp add: bit_length.simps[of n])
qed

lemma to_number_safe: "safe n \<Longrightarrow> to_number n = Fin n"
proof -
  assume "safe n"
  then have "nat \<bar>n\<bar> < 2 ^ 53"
    by (simp add: safe_def nat_less_iff)
  then have "nearest_double (nat \<bar>n\<bar>) = nat \<bar>n\<bar>" and "bit_length (nat \<bar>n\<bar>) \<le> 53"
    by (simp_all add: nearest_double_def bit_length_less)
  then show ?thesis
    by (simp add: to_number_def Let_def)
qed

lemma num_add_safe: "safe (a + b) \<Longrightarrow> num_add (Fin a) (Fin b) = Fin (a + b)"
  by (simp add: to_number_safe)

lemma num_sub_safe: "safe (a - b) \<Longrightarrow> num_sub (Fin a) (Fin b) = Fin (a - b)"
  by (simp add: num_sub_def to_number_safe)

lemma repeat_char_Fin:
  "0 \<le> n \<Longrightarrow> n \<le> int maxStringLength \<Longrightarrow> repeat_char c (Fin n) = Some (replicate (nat n) c)"
  "n < 0 \<or> int maxStringLength < n \<Longrightarrow> repeat_char c (Fin n) = None"
  by (auto simp: repeat_char_def)

lemma maxStringLength_safe: "0 \<le> n \<Longrightarrow> n \<le> int maxStringLength \<Longrightarrow> n < 2 ^ 53"
  by (simp add: maxStringLength_def)

section \<open>Queueing: what each call does\<close>

lemma write_op_unstarted:
  "\<not> typingStarted w \<Longrightarrow>
   write_op txt d w = Return (w\<lparr>charsNum := num_add (charsNum w) (Fin (int (length txt))),
                               writes := writes w @ [\<lparr>wtext = txt, wdelay = d\<rparr>]\<rparr>)"
  by (simp add: write_op_def)



lemma erase_unstarted:
  "\<not> typingStarted w \<Longrightarrow> repeat_char CR count = Some m \<Longrightarrow>
   erase count d w =
     Return (w\<lparr>eraseNum := num_add (eraseNum w) count,
              charsNum := num_add (num_sub (charsNum w) count) (Fin (int (length m))),
              writes := writes w @ [\<lparr>wtext = m, wdelay = d\<rparr>]\<rparr>)"
  by (simp add: erase_def write_op_def Let_def)


lemma plain_call_cases:
  assumes "plain_call c"
  obtains s d where "c = Write s d"
  | n d where "c = Erase (Fin n) d" and "0 \<le> n" and "n \<le> int maxStringLength"
  using assms by (cases c rule: plain_call.cases) auto

lemma do_call_plain_frame:
  assumes "\<not> typingStarted w" and "plain_call c"
  shows "\<exists>w'. do_call c w = Return w' \<and> \<not> typingStarted w' \<and>
        length (writes w') = Suc (length (writes w)) \<and> config w' = config w \<and>
        currentWritesIndex w' = currentWritesIndex w"
  using assms(2)
proof (cases rule: plain_call_cases)
  case (1 s d)
  with assms(1) show ?thesis
    by (simp add: write_op_unstarted)
next
  case (2 n d)
  with assms(1) show ?thesis
    by (simp add: erase_unstarted[OF _ repeat_char_Fin(1)])
qed

lemma do_calls_plain_frame:
  "\<not> typingStarted w \<Longrightarrow> list_all plain_call cs \<Longrightarrow>
   \<exists>w'. do_calls cs w = Return w' \<and> \<not> typingStarted w' \<and>
        length (writes w') = length (writes w) + length cs \<and> config w' = config w \<and>
        currentWritesIndex w' = currentWritesIndex w"
proof (induction cs arbitrary: w)
  case Nil
  then show ?case by simp
next
  case (Cons c cs)
  from Cons.prems obtain w1 where 1: "do_call c w = Return w1" "\<not> typingStarted w1"
      "length (writes w1) = Suc (length (writes w))" "config w1 = config w"
      "currentWritesIndex w1 = currentWritesIndex w"
    using do_call_plain_frame[of w c] by auto
  from Cons.prems have "list_all plain_call cs" by simp
  from Cons.IH[OF 1(2) this] 1 show ?case by auto
qed

lemma written_nonneg: "0 \<le> written cs"
  by (induction cs rule: written.induct) simp_all

lemma erased_nonneg: "list_all plain_call cs \<Longrightarrow> 0 \<le> erased cs"
proof (induction cs)
  case Nil
  then show ?case by simp
next
  case (Cons c cs)
  then have "plain_call c" and "0 \<le> erased cs" by simp_all
  then show ?case
    by (cases c rule: plain_call_cases) simp_all
qed

lemma written_Cons: "written (c # cs) = written [c] + written cs"
  by (cases c) simp_all

lemma erased_Cons: "erased (c # cs) = erased [c] + erased cs"
  by (cases "c # cs" rule: erased.cases) simp_all

text \<open>One call of a script, on counters that are, and stay, integers below \<open>2 ^ 53\<close>.\<close>

lemma do_call_plain:
  assumes "\<not> typingStarted w" and "plain_call c"
    and "charsNum w = Fin ch" and "eraseNum w = Fin e" and "0 \<le> ch" and "0 \<le> e"
    and "ch + written [c] < 2 ^ 53" and "e + erased [c] < 2 ^ 53"
  shows "\<exists>w'. do_call c w = Return w' \<and> \<not> typingStarted w' \<and>
        charsNum w' = Fin (ch + written [c]) \<and> eraseNum w' = Fin (e + erased [c])"
  using assms(2)
proof (cases rule: plain_call_cases)
  case (1 s d)
  from assms(5,7) 1 have "safe (ch + int (length s))"
    by (simp add: safe_def)
  with assms(1,3,4) 1 show ?thesis
    by (simp add: write_op_unstarted to_number_safe)
next
  case (2 n d)
  from assms(6,8) 2 have s1: "safe (e + n)"
    by (simp add: safe_def)
  from assms(5,7) 2 maxStringLength_safe[of n] have s2: "safe (ch - n)" "safe (ch - n + n)"
    by (simp_all add: safe_def)
  from 2 have r: "repeat_char CR (Fin n) = Some (replicate (nat n) CR)"
    by (simp add: repeat_char_Fin(1))
  from s2(2) have a: "num_add (Fin (ch - n)) (Fin n) = Fin ch"
    using num_add_safe[of "ch - n" n] by simp
  from s1 have b: "num_add (Fin e) (Fin n) = Fin (e + n)"
    by (rule num_add_safe)
  from assms(1,3,4) 2 s2 a b show ?thesis
    by (simp add: erase_unstarted[OF _ r] to_number_safe num_sub_safe del: num_add.simps)

qed

lemma do_calls_plain:
  assumes "\<not> typingStarted w" and "list_all plain_call cs"
    and "charsNum w = Fin ch" and "eraseNum w = Fin e" and "0 \<le> ch" and "0 \<le> e"
    and "ch + written cs < 2 ^ 53" and "e + erased cs < 2 ^ 53"
  shows "\<exists>w'. do_calls cs w = Return w' \<and> \<not> typingStarted w' \<and>
        charsNum w' = Fin (ch + written cs) \<and> eraseNum w' = Fin (e + erased cs)"
  using assms
proof (induction cs arbitrary: w ch e)
  case Nil
  then show ?case by simp
next
  case (Cons c cs)
  from Cons.prems(2) have p: "plain_call c" "list_all plain_call cs"
    by simp_all
  have n: "0 \<le> written [c]" "0 \<le> erased [c]" "0 \<le> written cs" "0 \<le> erased cs"
    using written_nonneg erased_nonneg[of "[c]"] erased_nonneg[OF p(2)] p(1) by simp_all
  have split: "written (c # cs) = written [c] + written cs" "erased (c # cs) = erased [c] + erased cs"
    by (rule written_Cons, rule erased_Cons)
  from Cons.prems(7,8) n split have b1: "ch + written [c] < 2 ^ 53" "e + erased [c] < 2 ^ 53"
    by simp_all
  from do_call_plain[OF Cons.prems(1) p(1) Cons.prems(3,4,5,6) b1]
  obtain w1 where 1: "do_call c w = Return w1" "\<not> typingStarted w1"
      "charsNum w1 = Fin (ch + written [c])" "eraseNum w1 = Fin (e + erased [c])"
    by auto
  from Cons.prems(5,6) n have nn: "0 \<le> ch + written [c]" "0 \<le> e + erased [c]"
    by simp_all
  from Cons.prems(7,8) split have b2: "ch + written [c] + written cs < 2 ^ 53"
      "e + erased [c] + erased cs < 2 ^ 53"
    by simp_all
  from Cons.IH[OF 1(2) p(2) 1(3,4) nn b2]
  obtain w' where 2: "do_calls cs w1 = Return w'" "\<not> typingStarted w'"
      "charsNum w' = Fin (ch + written [c] + written cs)"
      "eraseNum w' = Fin (e + erased [c] + erased cs)"
    by auto
  from 1(1) 2 split show ?case
    by (simp add: add.assoc)
qed

lemma written_take: "written (take k cs) \<le> written cs"
proof (induction cs arbitrary: k)
  case Nil
  then show ?case by simp
next
  case (Cons c cs)
  show ?case
  proof (cases k)
    case 0
    then show ?thesis using written_nonneg[of "c # cs"] by simp
  next
    case (Suc j)
    with Cons.IH[of j] show ?thesis
      using written_Cons[of c cs] written_Cons[of c "take j cs"] by simp
  qed
qed

lemma erased_take: "list_all plain_call cs \<Longrightarrow> erased (take k cs) \<le> erased cs"
proof (induction cs arbitrary: k)
  case Nil
  then show ?case by simp
next
  case (Cons c cs)
  show ?case
  proof (cases k)
    case 0
    then show ?thesis using erased_nonneg[OF Cons.prems] by simp
  next
    case (Suc j)
    from Cons.prems have "list_all plain_call cs" by simp
    with Cons.IH[of j] Suc show ?thesis
      using erased_Cons[of c cs] erased_Cons[of c "take j cs"] by simp
  qed
qed

section \<open>Playback: one timer at a time\<close>

lemma typed_Nil: "typed s [] = s"
  by (simp add: typed_def)

lemma typed_Cons: "typed s (c # cs) = typed (put_char [c] s) cs"
  by (simp add: typed_def)

lemma typed_snoc: "typed s (cs @ [c]) = put_char [c] (typed s cs)"
  by (simp add: typed_def)

lemma typed_erase: "typed s (replicate n CR) = take (length s - n) s"
proof (induction n arbitrary: s)
  case 0
  then show ?case by (simp add: typed_Nil)
next
  case (Suc n)
  have "typed s (replicate (Suc n) CR) = typed (butlast s) (replicate n CR)"
    by (simp add: typed_Cons put_char_def)
  also have "\<dots> = take (length (butlast s) - n) (butlast s)"
    by (rule Suc.IH)
  also have "\<dots> = take (length s - Suc n) s"
    by (simp add: butlast_conv_take)
  finally show ?case .
qed

lemma run_add: "run (m + n) w = (case run m w of Return u \<Rightarrow> run n u | Throw e u \<Rightarrow> Throw e u)"
  by (induction m arbitrary: w) (simp_all split: outcome.splits)

lemma run_Suc_end: "run n w = Return u \<Longrightarrow> run (Suc n) w = fire u"
  using run_add[of n 1 w] by (simp split: outcome.splits)

text \<open>The timeout fires: \<^verbatim>\<open>#type\<close> is entered.\<close>

lemma fire_timeout:
  assumes "timers w = [\<lparr>tid = i, due = t, pending = Timeout txt\<rparr>]"
  shows "fire w =
    Return (w\<lparr>writer := (writer w)\<lparr>element := (element (writer w))
                 \<lparr>classList := classList_add ''typing'' (classes w)\<rparr>\<rparr>,
              clock := t,
              timers := [\<lparr>tid = nextId w, due = t + max 0 (typeDelay (config (writer w))),
                          pending = Interval (max 0 (typeDelay (config (writer w)))) txt 0\<rparr>],
              nextId := Suc (nextId w)\<rparr>)"
  using assms
  by (simp add: fire_def rearm_def clearInterval_def priv_type_def toggleCursor_def
      map_element_def setInterval_def classList_toggle_def Let_def)

text \<open>The interval fires before the end of the text: one character is processed.\<close>

lemma fire_tick:
  assumes "timers w = [\<lparr>tid = i, due = t, pending = Interval p txt k\<rparr>]"
    and "k < length txt"
  shows "fire w =
    Return (w\<lparr>writer := (writer w)\<lparr>element := (element (writer w))
                 \<lparr>innerText := put_char [txt ! k] (visible w)\<rparr>\<rparr>,
              clock := t,
              timers := [\<lparr>tid = i, due = t + p, pending = Interval p txt (Suc k)\<rparr>]\<rparr>)"
  using assms
  by (simp add: fire_def rearm_def interval_callback_def set_index_def
      map_element_def Let_def take_Suc hd_drop_conv_nth)

lemma run_ticks:
  assumes "timers w = [\<lparr>tid = i, due = t, pending = Interval p txt k0\<rparr>]"
    and "k0 + k \<le> length txt"
  shows "run k w =
    Return (w\<lparr>writer := (writer w)\<lparr>element := (element (writer w))
                 \<lparr>innerText := typed (visible w) (take k (drop k0 txt))\<rparr>\<rparr>,
              clock := (if k = 0 then clock w else t + (int k - 1) * p),
              timers := [\<lparr>tid = i, due = t + int k * p, pending = Interval p txt (k0 + k)\<rparr>]\<rparr>)"
  using assms
proof (induction k arbitrary: w k0 t)
  case 0
  then show ?case by (simp add: typed_Nil)
next
  case (Suc k)
  let ?w1 = "w\<lparr>writer := (writer w)\<lparr>element := (element (writer w))
                 \<lparr>innerText := put_char [txt ! k0] (visible w)\<rparr>\<rparr>,
              clock := t,
              timers := [\<lparr>tid = i, due = t + p, pending = Interval p txt (Suc k0)\<rparr>]\<rparr>"
  from Suc.prems have lt: "k0 < length txt" by simp
  have f: "fire w = Return ?w1"
    using fire_tick[OF Suc.prems(1) lt] .
  have t1: "timers ?w1 = [\<lparr>tid = i, due = t + p, pending = Interval p txt (Suc k0)\<rparr>]"
    by simp
  from Suc.prems have le: "Suc k0 + k \<le> length txt" by simp
  have d: "take (Suc k) (drop k0 txt) = txt ! k0 # take k (drop (Suc k0) txt)"
    using lt by (simp add: Cons_nth_drop_Suc[symmetric])
  have "run (Suc k) w = run k ?w1"
    by (simp add: f)
  also note Suc.IH[OF t1 le]
  finally show ?case
    by (simp add: d typed_Cons algebra_simps)
qed

text \<open>From the pending timeout of an instruction to the state after \<open>k\<close> of its characters.\<close>

lemma run_type:
  assumes "timers w = [\<lparr>tid = i, due = t, pending = Timeout txt\<rparr>]"
    and "k \<le> length txt"
  shows "run (Suc k) w =
    Return (w\<lparr>writer := (writer w)\<lparr>element :=
                 \<lparr>innerText = typed (visible w) (take k txt),
                  classList = classList_add ''typing'' (classes w)\<rparr>\<rparr>,
              clock := t + int k * max 0 (typeDelay (config (writer w))),
              timers := [\<lparr>tid = nextId w,
                          due = t + (int k + 1) * max 0 (typeDelay (config (writer w))),
                          pending = Interval (max 0 (typeDelay (config (writer w)))) txt k\<rparr>],
              nextId := Suc (nextId w)\<rparr>)"
proof -
  let ?p = "max 0 (typeDelay (config (writer w)))"
  let ?w1 = "w\<lparr>writer := (writer w)\<lparr>element := (element (writer w))
                 \<lparr>classList := classList_add ''typing'' (classes w)\<rparr>\<rparr>,
              clock := t,
              timers := [\<lparr>tid = nextId w, due = t + ?p, pending = Interval ?p txt 0\<rparr>],
              nextId := Suc (nextId w)\<rparr>"
  have f: "fire w = Return ?w1"
    using fire_timeout[OF assms(1)] .
  have t1: "timers ?w1 = [\<lparr>tid = nextId w, due = t + ?p, pending = Interval ?p txt 0\<rparr>]"
    by simp
  from assms(2) have le: "0 + k \<le> length txt" by simp
  have "run (Suc k) w = run k ?w1"
    by (simp add: f)
  also note run_ticks[OF t1 le]
  finally show ?thesis
    by (simp add: algebra_simps)
qed

text \<open>The interval fires at the end of the text: whatever comes next, the class
  \<^verbatim>\<open>typing\<close> is gone.\<close>

lemma fire_finish_classes:
  assumes "timers w = [\<lparr>tid = i, due = t, pending = Interval p txt (length txt)\<rparr>]"
  shows "''typing'' \<notin> set (classes (state_of (fire w)))"
  using assms
  by (simp add: fire_def rearm_def interval_callback_def Let_def toggleCursor_def map_element_def
      clearInterval_def classList_toggle_def classList_add_def setTimeout_def start_def
      hideCursor_def split: option.splits)

section \<open>Playback: what every callback preserves\<close>


lemma interval_callback_frame:
  "typingStarted (writer w) \<Longrightarrow> typingStarted (writer (state_of (interval_callback i txt k w)))"
  "config (writer (state_of (interval_callback i txt k w))) = config (writer w)"
  "writes (writer (state_of (interval_callback i txt k w))) = writes (writer w)"
  by (simp_all add: interval_callback_def start_def setTimeout_def Let_def toggleCursor_def
      hideCursor_def map_element_def clearInterval_def set_index_def split: option.splits)

lemma rearm_frame: "writer (rearm t w) = writer w"
  by (simp add: rearm_def clearInterval_def split: pending.splits)

lemma fire_frame:
  "typingStarted (writer w) \<Longrightarrow> typingStarted (writer (state_of (fire w)))"
  "config (writer (state_of (fire w))) = config (writer w)"
  "writes (writer (state_of (fire w))) = writes (writer w)"
  by (simp_all add: fire_def Let_def interval_callback_frame rearm_frame priv_type_def
      toggleCursor_def map_element_def setInterval_def split: option.splits pending.splits)




lemma run_frame:
  "config (writer (state_of (run n w))) = config (writer w) \<and>
   writes (writer (state_of (run n w))) = writes (writer w)"
proof (induction n arbitrary: w)
  case 0
  show ?case by simp
next
  case (Suc n)
  show ?case
    using fire_frame(2,3)[of w] Suc.IH[of "state_of (fire w)"]
    by (cases "fire w") simp_all
qed


section \<open>Playback: errors and idleness\<close>

lemma start_throws:
  "thrown (start w) = Some e \<longleftrightarrow>
     e = TypeError \<and> writes (writer w) \<noteq> [] \<and>
     at_index (writes (writer w)) (currentWritesIndex (writer w)) = None"
  by (auto simp: start_def Let_def split: option.splits)

lemma interval_callback_throws:
  "thrown (interval_callback i txt k w) = Some e \<Longrightarrow>
     e = TypeError \<and> loop (config (writer w)) \<and> \<not> in_queue w"
  by (auto simp: interval_callback_def Let_def start_throws toggleCursor_def map_element_def
      clearInterval_def in_queue_def at_index_def split: option.splits if_splits)

lemma fire_throws:
  "thrown (fire w) = Some e \<Longrightarrow> e = TypeError \<and> loop (config (writer w)) \<and> \<not> in_queue w"
  by (auto simp: fire_def Let_def rearm_frame in_queue_def
      dest!: interval_callback_throws split: option.splits pending.splits)

text \<open>
  Playback raises no error when looping is off or \<^verbatim>\<open>loopFrom\<close> is an index of the
  queue, whatever timers are pending.
\<close>

lemma playback_safe:
  assumes "loop (config (writer w)) \<longrightarrow> in_queue w"
  shows "thrown (run n w) = None"
  using assms
proof (induction n arbitrary: w)
  case 0
  then show ?case by simp
next
  case (Suc n)
  show ?case
  proof (cases "fire w")
    case (Return u)
    have "config (writer u) = config (writer w)" "writes (writer u) = writes (writer w)"
      using fire_frame(2,3)[of w] Return by simp_all
    with Suc.prems have "loop (config (writer u)) \<longrightarrow> in_queue u"
      by (simp add: in_queue_def)
    from Suc.IH[OF this] Return show ?thesis by simp
  next
    case (Throw e u)
    with fire_throws[of w e] Suc.prems show ?thesis by simp
  qed
qed

lemma earliest_None: "earliest ts = None \<longleftrightarrow> ts = []"
  by (induction ts) (auto split: option.splits)

lemma earliest_in: "earliest ts = Some t \<Longrightarrow> t \<in> set ts"
  by (induction ts arbitrary: t) (auto split: option.splits if_splits)

lemma fire_busy:
  assumes "loop (config (writer w))" and "in_queue w" and "timers w \<noteq> []"
  shows "timers (state_of (fire w)) \<noteq> []"
proof -
  from assms(3) obtain t where t: "earliest (timers w) = Some t" "t \<in> set (timers w)"
    using earliest_None[of "timers w"] earliest_in[of "timers w"] by auto
  show ?thesis
  proof (cases "pending t")
    case (Timeout s)
    with t show ?thesis
      by (simp add: fire_def Let_def priv_type_def setInterval_def)
  next
    case (Interval p s k)
    show ?thesis
    proof (cases "k = length s")
      case True
      from assms(2) have "writes (writer w) \<noteq> []"
        by (auto simp: in_queue_def)
      with assms(1,2) True Interval t show ?thesis
        by (auto simp: fire_def rearm_frame interval_callback_def Let_def setTimeout_def
            toggleCursor_def map_element_def clearInterval_def in_queue_def at_index_def
            start_def split: option.splits)
    next
      case False
      with Interval t assms(3) show ?thesis
        by (auto simp: fire_def interval_callback_def Let_def set_index_def map_element_def
            rearm_def)
    qed
  qed
qed

text \<open>
  With looping on and \<^verbatim>\<open>loopFrom\<close> an index of the queue, a timer is pending after
  every callback: playback never becomes idle and never raises.
\<close>

lemma loop_never_idle:
  assumes "loop (config (writer w))" and "in_queue w" and "\<not> idle w"
  shows "\<exists>u. run n w = Return u \<and> \<not> idle u"
  using assms
proof (induction n arbitrary: w)
  case 0
  then show ?case by simp
next
  case (Suc n)
  from Suc.prems have "thrown (fire w) = None"
    using fire_throws[of w] by (cases "thrown (fire w)") auto
  then obtain v where v: "fire w = Return v"
    by (cases "fire w") simp_all
  have "config (writer v) = config (writer w)" "writes (writer v) = writes (writer w)"
    using fire_frame(2,3)[of w] v by simp_all
  with Suc.prems have 1: "loop (config (writer v))" "in_queue v"
    by (simp_all add: in_queue_def)
  from fire_busy[of w] Suc.prems v have 2: "\<not> idle v"
    by (simp add: idle_def)
  from Suc.IH[OF 1 2] v show ?case by simp
qed

lemma start_busy:
  assumes "loop (config (writer w))" and "in_queue w" and "currentWritesIndex (writer w) = 0"
  shows "\<exists>u. start w = Return u \<and> \<not> idle u \<and> loop (config (writer u)) \<and> in_queue u"
  using assms
  by (auto simp: start_def Let_def in_queue_def at_index_def idle_def setTimeout_def)

text \<open>
  So a looping writer started on a script of \<^verbatim>\<open>write\<close> and \<^verbatim>\<open>erase\<close> calls, with
  \<^verbatim>\<open>loopFrom\<close> an index of its queue, plays for ever.
\<close>

lemma started_loop_never_idle:
  assumes "loop cfg" and "list_all plain_call cs"
    and "0 \<le> loopFrom cfg" and "loopFrom cfg < int (length cs)"
  shows "\<exists>u. run n (started cfg e cs) = Return u \<and> \<not> idle u"
proof -
  have "\<not> typingStarted (fresh cfg e)"
    by (simp add: fresh_def)
  from do_calls_plain_frame[OF this assms(2)] obtain ew where ew: "do_calls cs (fresh cfg e) = Return ew"
      "length (writes ew) = length cs" "config ew = cfg" "currentWritesIndex ew = 0"
    by (auto simp: fresh_def)
  with assms(1,3,4) have "loop (config (writer (page ew)))" "in_queue (page ew)"
      "currentWritesIndex (writer (page ew)) = 0"
    by (simp_all add: page_def in_queue_def)
  from start_busy[OF this] obtain u where u: "start (page ew) = Return u" "\<not> idle u"
      "loop (config (writer u))" "in_queue u"
    by auto
  from loop_never_idle[OF u(3,4,2)] u(1) ew(1) show ?thesis
    by (simp add: started_def)
qed

section \<open>The concrete pages, evaluated\<close>

lemmas shared_defs =
  start_def setTimeout_def at_index_def Let_def

lemmas page_defs =
  started_def page_def fresh_def plain_def demo_config_def default_config_def
  write_op_def erase_def eraseLast_def eraseAll_def last_entry_def
  repeat_char_def maxStringLength_def num_sub_def to_number_safe safe_def

lemma hi_world_eq:
  "hi_world =
     \<lparr>writer = \<lparr>element = \<lparr>innerText = [], classList = []\<rparr>,
                config = \<lparr>typeDelay = 10, loop = False, loopFrom = 0, hideCursorOnEnd = False\<rparr>,
                writes = [\<lparr>wtext = ''Hi'', wdelay = 0\<rparr>], eraseNum = Fin 0, charsNum = Fin 2,
                typingStarted = True, currentWritesIndex = 0\<rparr>,
      clock = 0, timers = [\<lparr>tid = 0, due = 0, pending = Timeout ''Hi''\<rparr>], nextId = 1\<rparr>"
  by (simp add: hi_world_def page_defs shared_defs)

lemma erase_world_eq:
  "erase_world =
     \<lparr>writer = \<lparr>element = \<lparr>innerText = ''Hi'', classList = []\<rparr>,
                config = \<lparr>typeDelay = 10, loop = False, loopFrom = 0, hideCursorOnEnd = False\<rparr>,
                writes = [\<lparr>wtext = [CR, CR], wdelay = 0\<rparr>], eraseNum = Fin 2, charsNum = Fin 0,
                typingStarted = True, currentWritesIndex = 0\<rparr>,
      clock = 0, timers = [\<lparr>tid = 0, due = 0, pending = Timeout [CR, CR]\<rparr>], nextId = 1\<rparr>"
  by (simp add: erase_world_def page_defs shared_defs numeral_2_eq_2)

lemma over_erase_world_eq:
  "over_erase_world =
     \<lparr>writer = \<lparr>element = \<lparr>innerText = ''Hi'', classList = []\<rparr>,
                config = \<lparr>typeDelay = 10, loop = False, loopFrom = 0, hideCursorOnEnd = False\<rparr>,
                writes = [\<lparr>wtext = replicate 3 CR, wdelay = 0\<rparr>], eraseNum = Fin 3, charsNum = Fin 0,
                typingStarted = True, currentWritesIndex = 0\<rparr>,
      clock = 0, timers = [\<lparr>tid = 0, due = 0, pending = Timeout (replicate 3 CR)\<rparr>], nextId = 1\<rparr>"
  by (simp add: over_erase_world_def page_defs shared_defs)

lemma typing_world_eq:
  "typing_world =
     \<lparr>writer = \<lparr>element = \<lparr>innerText = [], classList = [''typing'']\<rparr>,
                config = \<lparr>typeDelay = 10, loop = False, loopFrom = 0, hideCursorOnEnd = False\<rparr>,
                writes = [\<lparr>wtext = ''Hi'', wdelay = 0\<rparr>], eraseNum = Fin 0, charsNum = Fin 2,
                typingStarted = True, currentWritesIndex = 0\<rparr>,
      clock = 0, timers = [\<lparr>tid = 0, due = 0, pending = Timeout ''Hi''\<rparr>], nextId = 1\<rparr>"
  by (simp add: typing_world_def page_defs shared_defs)

lemma past_end_world_eq:
  "past_end_world =
     \<lparr>writer = \<lparr>element = \<lparr>innerText = [], classList = []\<rparr>,
                config = \<lparr>typeDelay = 150, loop = True, loopFrom = 1, hideCursorOnEnd = False\<rparr>,
                writes = [\<lparr>wtext = ''a'', wdelay = 0\<rparr>], eraseNum = Fin 0, charsNum = Fin 1,
                typingStarted = True, currentWritesIndex = 0\<rparr>,
      clock = 0, timers = [\<lparr>tid = 0, due = 0, pending = Timeout ''a''\<rparr>], nextId = 1\<rparr>"
  by (simp add: past_end_world_def page_defs shared_defs)

lemma negative_loop_world_eq:
  "negative_loop_world =
     \<lparr>writer = \<lparr>element = \<lparr>innerText = [], classList = []\<rparr>,
                config = \<lparr>typeDelay = 150, loop = True, loopFrom = - 1, hideCursorOnEnd = False\<rparr>,
                writes = [\<lparr>wtext = ''a'', wdelay = 0\<rparr>, \<lparr>wtext = ''b'', wdelay = 0\<rparr>],
                eraseNum = Fin 0, charsNum = Fin 2,
                typingStarted = True, currentWritesIndex = 0\<rparr>,
      clock = 0, timers = [\<lparr>tid = 0, due = 0, pending = Timeout ''a''\<rparr>], nextId = 1\<rparr>"
  by (simp add: negative_loop_world_def page_defs shared_defs)

lemma loop_world_eq:
  "loop_world =
     \<lparr>writer = \<lparr>element = \<lparr>innerText = [], classList = []\<rparr>,
                config = \<lparr>typeDelay = 150, loop = True, loopFrom = 0, hideCursorOnEnd = False\<rparr>,
                writes = [\<lparr>wtext = ''a'', wdelay = 0\<rparr>, \<lparr>wtext = [CR], wdelay = 0\<rparr>],
                eraseNum = Fin 1, charsNum = Fin 1,
                typingStarted = True, currentWritesIndex = 0\<rparr>,
      clock = 0, timers = [\<lparr>tid = 0, due = 0, pending = Timeout ''a''\<rparr>], nextId = 1\<rparr>"
  by (simp add: loop_world_def page_defs shared_defs)

lemmas playback_defs =
  fire_def rearm_def clearInterval_def priv_type_def toggleCursor_def hideCursor_def
  map_element_def setInterval_def set_index_def interval_callback_def
  classList_toggle_def classList_add_def put_char_def CR_def


section \<open>The claims\<close>

subsection \<open>C1: one character per tick\<close>

lemma hi_world_texts:
  "map (\<lambda>n. visible (state_of (run n hi_world))) [1, 2, 3] = ['''', ''H'', ''Hi'']"
  "map (\<lambda>n. clock (state_of (run n hi_world))) [1, 2, 3] = [0, 10, 20]"
  by (simp_all add: eval_nat_numeral hi_world_eq playback_defs shared_defs)

lemma erase_world_texts:
  "map (\<lambda>n. visible (state_of (run n erase_world))) [1, 2, 3] = [''Hi'', ''H'', '''']"
  by (simp add: eval_nat_numeral erase_world_eq playback_defs shared_defs)

text \<open>
  Claim C1. During the playback of one instruction, exactly one character is processed
  per tick, at the configured per-character delay: a normal character is appended to
  the visible text and an erase marker removes its last character. Here \<open>w\<close> is the page
  when the instruction is about to begin, \<open>u\<close> the page after \<open>k\<close> ticks and \<open>v\<close> the page
  after the next tick. The instruction \<^verbatim>\<open>Hi\<close> drives the visible text through the empty
  text, \<^verbatim>\<open>H\<close> and \<^verbatim>\<open>Hi\<close>, at the times 0, 10 and 20 for a delay of 10, and an erase of
  count 2 drives \<^verbatim>\<open>Hi\<close> through \<^verbatim>\<open>Hi\<close>, \<^verbatim>\<open>H\<close> and the empty text.
\<close>

theorem one_character_per_tick:
  assumes "timers w = [\<lparr>tid = i, due = t, pending = Timeout txt\<rparr>]" and "k < length txt"
  shows "(\<exists>u v. run (Suc k) w = Return u \<and> fire u = Return v \<and>
            visible u = typed (visible w) (take k txt) \<and>
            visible v = (if txt ! k = CR then butlast (visible u) else visible u @ [txt ! k]) \<and>
            clock v = clock u + max 0 (typeDelay (config (writer w))) \<and>
            map pending (timers u) = [Interval (max 0 (typeDelay (config (writer w)))) txt k] \<and>
            map pending (timers v) = [Interval (max 0 (typeDelay (config (writer w)))) txt (Suc k)]) \<and>
         map (\<lambda>n. visible (state_of (run n hi_world))) [1, 2, 3] = ['''', ''H'', ''Hi''] \<and>
         map (\<lambda>n. clock (state_of (run n hi_world))) [1, 2, 3] = [0, 10, 20] \<and>
         map (\<lambda>n. visible (state_of (run n erase_world))) [1, 2, 3] = [''Hi'', ''H'', '''']"
proof -
  from assms(2) have le: "k \<le> length txt" "Suc k \<le> length txt"
    by simp_all
  note u = run_type[OF assms(1) le(1)]
  note v = run_type[OF assms(1) le(2)]
  have f: "fire (state_of (run (Suc k) w)) = run (Suc (Suc k)) w"
    using run_Suc_end[OF u] by (simp only: u state_of.simps)
  have tk: "take (Suc k) txt = take k txt @ [txt ! k]"
    using assms(2) by (simp add: take_Suc_conv_app_nth)
  have "\<exists>u v. run (Suc k) w = Return u \<and> fire u = Return v \<and>
            visible u = typed (visible w) (take k txt) \<and>
            visible v = (if txt ! k = CR then butlast (visible u) else visible u @ [txt ! k]) \<and>
            clock v = clock u + max 0 (typeDelay (config (writer w))) \<and>
            map pending (timers u) = [Interval (max 0 (typeDelay (config (writer w)))) txt k] \<and>
            map pending (timers v) = [Interval (max 0 (typeDelay (config (writer w)))) txt (Suc k)]"
    using f by (simp add: u v tk typed_snoc put_char_def algebra_simps del: run.simps)
  with hi_world_texts erase_world_texts show ?thesis
    by simp
qed

theorem one_character_per_tick_witness:
  "timers hi_world = [\<lparr>tid = 0, due = 0, pending = Timeout ''Hi''\<rparr>] \<and> (1::nat) < length ''Hi'' \<and>
   (\<exists>u v. run (Suc 1) hi_world = Return u \<and> fire u = Return v \<and>
          visible u = ''H'' \<and> visible v = ''Hi'' \<and> clock v = clock u + 10)"
proof -
  have t: "timers hi_world = [\<lparr>tid = 0, due = 0, pending = Timeout ''Hi''\<rparr>]"
    by (simp add: hi_world_eq)
  have k: "(1::nat) < length ''Hi''"
    by simp
  from one_character_per_tick[OF t k] obtain u v where
    "run (Suc 1) hi_world = Return u" "fire u = Return v"
    "visible u = typed (visible hi_world) (take 1 ''Hi'')"
    "visible v = (if ''Hi'' ! 1 = CR then butlast (visible u) else visible u @ [''Hi'' ! 1])"
    "clock v = clock u + max 0 (typeDelay (config (writer hi_world)))"
    by blast
  then have "run (Suc 1) hi_world = Return u \<and> fire u = Return v \<and>
          visible u = ''H'' \<and> visible v = ''Hi'' \<and> clock v = clock u + 10"
    by (simp add: hi_world_eq typed_def put_char_def CR_def)
  with t k show ?thesis by blast
qed


subsection \<open>C2: the character count before start\<close>

text \<open>
  Claim C2, as the code has it. For every script of \<^verbatim>\<open>write\<close> calls and of \<^verbatim>\<open>erase\<close> calls
  with an integral count from 0 to the greatest length of a string, run on a fresh
  writer, whose written and erased totals are below \<open>2 ^ 53\<close>, and at every point \<open>k\<close>
  of the script: no call has failed, \<^verbatim>\<open>_charsNum\<close> is the sum of the lengths of the
  texts passed to \<^verbatim>\<open>write\<close> (the counts passed to \<^verbatim>\<open>erase\<close> are not subtracted, since
  \<^verbatim>\<open>erase\<close> subtracts its count and its call of \<^verbatim>\<open>write\<close> adds it again), and
  \<^verbatim>\<open>_eraseNum\<close> is the sum of the counts passed to \<^verbatim>\<open>erase\<close>.
\<close>

theorem charsNum_is_written:
  assumes "list_all plain_call cs" and "k \<le> length cs"
    and "written cs < 2 ^ 53" and "erased cs < 2 ^ 53"
  shows "\<exists>w'. do_calls (take k cs) (fresh cfg e) = Return w' \<and>
            charsNum w' = Fin (written (take k cs)) \<and> eraseNum w' = Fin (erased (take k cs))"
proof -
  have w: "\<not> typingStarted (fresh cfg e)" "charsNum (fresh cfg e) = Fin 0"
      "eraseNum (fresh cfg e) = Fin 0"
    by (simp_all add: fresh_def)
  from assms(1) have p: "list_all plain_call (take k cs)"
    by (simp add: list_all_iff) (meson in_set_takeD)
  from assms(3) written_take[of k cs] have b1: "0 + written (take k cs) < 2 ^ 53"
    by simp
  from assms(4) erased_take[OF assms(1), of k] have b2: "0 + erased (take k cs) < 2 ^ 53"
    by simp
  from do_calls_plain[OF w(1) p w(2,3) order_refl order_refl b1 b2] show ?thesis
    by auto
qed

theorem charsNum_is_written_witness:
  "list_all plain_call [Write ''abc'' 0, Erase (Fin 2) 0] \<and>
   (2::nat) \<le> length [Write ''abc'' 0, Erase (Fin 2) 0] \<and>
   written [Write ''abc'' 0, Erase (Fin 2) 0] < 2 ^ 53 \<and>
   erased [Write ''abc'' 0, Erase (Fin 2) 0] < 2 ^ 53 \<and>
   (\<exists>w'. do_calls (take 2 [Write ''abc'' 0, Erase (Fin 2) 0]) (fresh default_config (plain [])) =
            Return w' \<and>
          charsNum w' = Fin 3 \<and> eraseNum w' = Fin 2)"
  using charsNum_is_written[of "[Write ''abc'' 0, Erase (Fin 2) 0]" 2 default_config "plain []"]
  by (simp add: maxStringLength_def)

text \<open>The claim as stated fails: after \<^verbatim>\<open>write("abc")\<close> and \<^verbatim>\<open>erase(2)\<close> the count is 3,
  not 3 - 2.\<close>

theorem charsNum_counterexample:
  "charsNum (state_of (do_calls [Write ''abc'' 0, Erase (Fin 2) 0] (fresh default_config (plain []))))
     = Fin 3 \<and>
   written [Write ''abc'' 0, Erase (Fin 2) 0] - erased [Write ''abc'' 0, Erase (Fin 2) 0] = 1"
  by (simp add: page_defs)

subsection \<open>C3: the count of eraseAll\<close>




subsection \<open>C5: no queueing after start\<close>




subsection \<open>C6: eraseLast\<close>





subsection \<open>C8: the class typing\<close>

text \<open>
  Claim C8, as the code has it. \<^verbatim>\<open>#toggleCursor(false)\<close> forces the class \<^verbatim>\<open>typing\<close> on:
  from the entry of an instruction and after each of its characters the element carries
  the class \<^verbatim>\<open>typing\<close>, and the tick that ends the instruction removes it.
\<close>

theorem typing_class_while_animating:
  assumes "timers w = [\<lparr>tid = i, due = t, pending = Timeout txt\<rparr>]" and "k \<le> length txt"
  shows "''typing'' \<in> set (classes (state_of (run (Suc k) w))) \<and>
         ''typing'' \<notin> set (classes (state_of (run (Suc (Suc (length txt))) w)))"
proof
  show "''typing'' \<in> set (classes (state_of (run (Suc k) w)))"
    by (simp add: run_type[OF assms] classList_add_def del: run.simps)
next
  note u = run_type[OF assms(1) order_refl]
  have "run (Suc (Suc (length txt))) w = fire (state_of (run (Suc (length txt)) w))"
    using run_Suc_end[OF u] by (simp only: u state_of.simps)
  moreover have "''typing'' \<notin> set (classes (state_of (fire (state_of (run (Suc (length txt)) w)))))"
    by (rule fire_finish_classes[where i = "nextId w"
          and t = "t + (int (length txt) + 1) * max 0 (typeDelay (config (writer w)))"
          and p = "max 0 (typeDelay (config (writer w)))"])
       (simp add: u del: run.simps)
  ultimately show "''typing'' \<notin> set (classes (state_of (run (Suc (Suc (length txt))) w)))"
    by (simp del: run.simps)
qed

theorem typing_class_while_animating_witness:
  "timers hi_world = [\<lparr>tid = 0, due = 0, pending = Timeout ''Hi''\<rparr>] \<and> (1::nat) \<le> length ''Hi'' \<and>
   ''typing'' \<notin> set (classes hi_world) \<and>
   ''typing'' \<in> set (classes (state_of (run (Suc 1) hi_world))) \<and>
   ''typing'' \<notin> set (classes (state_of (run (Suc (Suc (length ''Hi''))) hi_world)))"
proof -
  have t: "timers hi_world = [\<lparr>tid = 0, due = 0, pending = Timeout ''Hi''\<rparr>]"
    by (simp add: hi_world_eq)
  have k: "(1::nat) \<le> length ''Hi''"
    by simp
  have "''typing'' \<notin> set (classes hi_world)"
    by (simp add: hi_world_eq)
  with typing_class_while_animating[OF t k] t k show ?thesis
    by blast
qed

text \<open>The claim as stated fails: on an element that carries \<^verbatim>\<open>typing\<close> at the start,
  the class is on, not off, after the first character, and it is gone, not restored,
  when the instruction has ended.\<close>

theorem typing_class_counterexample:
  "''typing'' \<in> set (classes typing_world) \<and>
   ''typing'' \<in> set (classes (state_of (run 2 typing_world))) \<and>
   ''typing'' \<notin> set (classes (state_of (run 4 typing_world)))"
  by (simp add: eval_nat_numeral typing_world_eq playback_defs shared_defs)

subsection \<open>C9: the failing erase is not atomic\<close>




subsection \<open>C10: erasing an empty text\<close>

text \<open>
  Claim C10. An erase marker processed on the empty text leaves it empty. Playback of
  an erase instruction of count \<open>n\<close> is total: after each of its \<open>k \<le> n\<close> ticks the
  page is there and shows the text it began with less its last \<open>k\<close> characters, which is
  the empty text once \<open>k\<close> has reached its length; and no later callback raises either,
  when looping is off or the loop-from index is an index of the queue.
\<close>

theorem erase_on_empty_text:
  assumes "timers w = [\<lparr>tid = i, due = t, pending = Timeout (replicate n CR)\<rparr>]" and "k \<le> n"
  shows "put_char [CR] [] = [] \<and>
         (\<exists>u. run (Suc k) w = Return u \<and>
              visible u = take (length (visible w) - k) (visible w) \<and>
              (length (visible w) \<le> k \<longrightarrow> visible u = [])) \<and>
         ((loop (config (writer w)) \<longrightarrow> in_queue w) \<longrightarrow> thrown (run m w) = None)"
proof -
  from assms(2) have "k \<le> length (replicate n CR)"
    by simp
  note u = run_type[OF assms(1) this]
  have "take k (replicate n CR) = replicate k CR"
    using assms(2) by (simp add: min_def)
  then show ?thesis
    by (simp add: u typed_erase put_char_def playback_safe del: run.simps)
qed

theorem erase_on_empty_text_witness:
  "timers over_erase_world = [\<lparr>tid = 0, due = 0, pending = Timeout (replicate 3 CR)\<rparr>] \<and>
   (3::nat) \<le> 3 \<and> length (visible over_erase_world) \<le> 3 \<and>
   \<not> loop (config (writer over_erase_world)) \<and>
   (\<exists>u. run (Suc 3) over_erase_world = Return u \<and> visible u = []) \<and>
   thrown (run 9 over_erase_world) = None"
proof -
  have t: "timers over_erase_world = [\<lparr>tid = 0, due = 0, pending = Timeout (replicate 3 CR)\<rparr>]"
    by (simp add: over_erase_world_eq)
  have l: "length (visible over_erase_world) \<le> 3"
    by (simp add: over_erase_world_eq)
  have c: "\<not> loop (config (writer over_erase_world))"
    by (simp add: over_erase_world_eq)
  from erase_on_empty_text[OF t order_refl, of 9] l t c show ?thesis
    by auto
qed

subsection \<open>C4 and C7: a loop-from index outside the queue\<close>

text \<open>
  Claim C4: no error is raised during playback, for every configuration (every value
  of \<^verbatim>\<open>loop\<close> and \<^verbatim>\<open>loopFrom\<close>) and every queue. The code does not keep it. With
  \<^verbatim>\<open>loop\<close> on and \<^verbatim>\<open>loopFrom = 1\<close> on a queue of one instruction, \<^verbatim>\<open>start()\<close> returns
  and the first two callbacks return, and the third callback, the one that ends the
  instruction, raises \<^verbatim>\<open>TypeError\<close>: it calls \<^verbatim>\<open>start\<close>, which reads \<^verbatim>\<open>.delay\<close> of
  \<^verbatim>\<open>_writes[1]\<close>, the entry its non-null assertion takes to exist. By \<open>playback_safe\<close>
  this is the only way playback raises.
\<close>

theorem loop_restart_throws:
  "thrown (start (page (state_of (do_calls [Write ''a'' 0]
              (fresh (default_config\<lparr>loop := True, loopFrom := 1\<rparr>) (plain [])))))) = None \<and>
   thrown (run 2 past_end_world) = None \<and>
   thrown (run 3 past_end_world) = Some TypeError"
proof -
  have "thrown (start (page (state_of (do_calls [Write ''a'' 0]
              (fresh (default_config\<lparr>loop := True, loopFrom := 1\<rparr>) (plain [])))))) = None"
    by (simp add: page_defs shared_defs)
  moreover have "thrown (run 2 past_end_world) = None"
      "thrown (run 3 past_end_world) = Some TypeError"
    by (simp_all add: eval_nat_numeral past_end_world_eq playback_defs shared_defs)
  ultimately show ?thesis
    by simp
qed

text \<open>
  Claim C7: with looping on and a queue that is not empty, playback never becomes
  idle; when the last instruction ends, the cursor is set to the loop-from index and
  \<^verbatim>\<open>start\<close> replays from there. The code does not keep it. With \<^verbatim>\<open>loop\<close> on and
  \<^verbatim>\<open>loopFrom = -1\<close> on a queue of two instructions, the callback that ends the second
  instruction sets the cursor to -1, calls \<^verbatim>\<open>start\<close> and raises \<^verbatim>\<open>TypeError\<close>: no timer
  is left pending, each text has been typed once and nothing is replayed. By
  \<open>started_loop_never_idle\<close> the claim holds when the loop-from index is an index of
  the queue.
\<close>

theorem loop_restart_stops:
  "thrown (run 6 negative_loop_world) = Some TypeError \<and>
   idle (state_of (run 6 negative_loop_world)) \<and>
   visible (state_of (run 6 negative_loop_world)) = ''ab'' \<and>
   currentWritesIndex (writer (state_of (run 6 negative_loop_world))) = - 1"
  by (simp add: eval_nat_numeral negative_loop_world_eq playback_defs shared_defs idle_def)

text \<open>With \<^verbatim>\<open>loopFrom = 0\<close> the same code replays: \<^verbatim>\<open>write("a")\<close> and \<^verbatim>\<open>erase(1)\<close> show
  \<^verbatim>\<open>a\<close>, nothing, \<^verbatim>\<open>a\<close>, nothing, and so on.\<close>

lemma loop_world_two_cycles:
  "map (\<lambda>n. visible (state_of (run n loop_world))) [2, 5, 8, 11] = [''a'', '''', ''a'', '''']"
  by (simp add: eval_nat_numeral loop_world_eq playback_defs shared_defs)



end
